theory Spec2Isabelle
  imports Complex_Main "HOL-Library.Sublist" "HOL-Library.Multiset" "HOL-Library.AList"
begin

section \<open>The experiment queues of dvc/repo/experiments/queue/local.py\<close>

text \<open>
  A shallow embedding of \<^verbatim>\<open>LocalCeleryQueue\<close> (the broker-backed queue) and of
  \<^verbatim>\<open>WorkspaceQueue\<close> (the synchronous queue). The collaborators (stash, Celery
  broker and result backend, process manager, executor, info files) are fields of the
  queue records: what a collaborator answers is data of the model, what the queue code
  does with the answer is the function. A Python exception is a value of \<open>error\<close>, a
  function that can raise returns \<open>error + 'a\<close>. A leading underscore of a source name is
  written as the prefix \<open>U_\<close>.
\<close>

subsection \<open>Exceptions\<close>

datatype error =
    DvcException string
  | UnresolvedQueueExpNamesError "string list"
  | ExpQueueEmptyError string
  | CheckpointKilledError
  | FileNotFoundError
  | IndexError
  | AssertionError
  | OtherException string

text \<open>
  The \<^verbatim>\<open>except DvcException\<close> clause catches the subclasses of DvcException as well.
  The class hierarchy lives in modules outside local.py; it is the one of DVC:
  the empty-queue, unresolved-names and checkpoint-killed errors derive from DvcException.
\<close>

fun is_DvcException :: "error \<Rightarrow> bool" where
  "is_DvcException (DvcException _) = True"
| "is_DvcException (UnresolvedQueueExpNamesError _) = True"
| "is_DvcException (ExpQueueEmptyError _) = True"
| "is_DvcException CheckpointKilledError = True"
| "is_DvcException _ = False"

fun is_ExpQueueEmptyError :: "error \<Rightarrow> bool" where
  "is_ExpQueueEmptyError (ExpQueueEmptyError _) = True"
| "is_ExpQueueEmptyError _ = False"

subsection \<open>Entries, results, info records\<close>

type_synonym rev = string
type_synonym task_id = string

record QueueEntry =
  dvc_root :: string
  scm_root :: string
  stash_ref :: string
  stash_rev :: rev
  baseline_rev :: rev
  branch :: "string option"
  name :: "string option"
  head_rev :: rev

record ExpStashEntry =
  se_head_rev :: rev
  se_baseline_rev :: rev
  se_branch :: "string option"
  se_name :: "string option"

text \<open>An \<^verbatim>\<open>ExpRefInfo\<close> object is always truthy; only \<^verbatim>\<open>None\<close> is not.\<close>

datatype ExpRefInfo = ExpRefInfo string

record ExecutorResult =
  exp_hash :: "string option"
  ref_info :: "ExpRefInfo option"
  force :: bool

record ExecutorInfo =
  collected :: bool
  result :: "ExecutorResult option"

text \<open>Python truthiness of an \<^verbatim>\<open>Optional[str]\<close>: \<^verbatim>\<open>None\<close> and \<^verbatim>\<open>""\<close> are falsy.\<close>

fun truthy :: "string option \<Rightarrow> bool" where
  "truthy None = False"
| "truthy (Some s) = (s \<noteq> [])"

text \<open>
  A Python generator, run to its end: the items it yields and the exception that ends
  it, if one does. A consumer that stops early (a \<^verbatim>\<open>return\<close> or \<^verbatim>\<open>raise\<close> in the
  loop body) never sees the exception behind the item it stopped at.
\<close>

type_synonym 'a gen = "'a list \<times> error option"

text \<open>Dictionaries keep insertion order: association lists, \<^verbatim>\<open>d.update(d2)\<close> by \<open>dict_update\<close>.\<close>

definition dict_update :: "('k \<times> 'v) list \<Rightarrow> ('k \<times> 'v) list \<Rightarrow> ('k \<times> 'v) list" where
  "dict_update d d2 = fold (\<lambda>(k, v). AList.update k v) d2 d"

subsection \<open>WorkspaceQueue\<close>

datatype exec_outcome = Returns ExecutorResult | Raises error

record Executor =
  executor_entry :: QueueEntry

type_synonym results = "(string \<times> (string \<times> string) list) list"

text \<open>
  The synchronous queue with its collaborators: the stash records in the order
  \<^verbatim>\<open>stash.stash_revs\<close> lists them, what \<^verbatim>\<open>executor.reproduce\<close> does for an executor and
  a revision, and what \<^verbatim>\<open>scm.get_ref(EXEC_BRANCH)\<close> answers once that executor has run.
\<close>

record WorkspaceQueue =
  repo_root_dir :: string
  scm_root_dir :: string
  ref :: string
  stash_revs :: "(rev \<times> ExpStashEntry) list"
  executor_reproduce :: "Executor \<Rightarrow> rev \<Rightarrow> exec_outcome"
  exec_branch_ref :: "Executor \<Rightarrow> string option"

text \<open>
  Modelled from the spec: \<^verbatim>\<open>BaseStashQueue.setup_executor\<close> is in base.py, which is not
  among the sources. The spec has \<^verbatim>\<open>get\<close> pop the stash record and construct an executor
  bound to the entry: the executor holds the entry, and the record keyed by the entry's
  stash revision leaves the stash.
\<close>

definition setup_executor :: "WorkspaceQueue \<Rightarrow> QueueEntry \<Rightarrow> Executor \<times> WorkspaceQueue" where
  "setup_executor q entry =
     (\<lparr>executor_entry = entry\<rparr>,
      q\<lparr>stash_revs := AList.delete (stash_rev entry) (stash_revs q)\<rparr>)"

text \<open>The \<^verbatim>\<open>QueueEntry(...)\<close> that \<^verbatim>\<open>get\<close> builds for a stash record.\<close>

definition stash_queue_entry :: "WorkspaceQueue \<Rightarrow> rev \<times> ExpStashEntry \<Rightarrow> QueueEntry" where
  "stash_queue_entry q item =
     (case item of
        (srev, stash_entry) \<Rightarrow>
          \<lparr>dvc_root = repo_root_dir q, scm_root = scm_root_dir q,
           stash_ref = ref q, stash_rev = srev,
           baseline_rev = se_baseline_rev stash_entry,
           branch = se_branch stash_entry, name = se_name stash_entry,
           head_rev = se_head_rev stash_entry\<rparr>)"

definition get :: "WorkspaceQueue \<Rightarrow> error + ((QueueEntry \<times> Executor) \<times> WorkspaceQueue)" where
  "get q =
     (case stash_revs q of
        [] \<Rightarrow> Inl (ExpQueueEmptyError ''No experiments in the queue.'')
      | item # _ \<Rightarrow>
          let entry = stash_queue_entry q item;
              (executor, q') = setup_executor q entry
          in Inr ((entry, executor), q'))"

definition collect_executor :: "WorkspaceQueue \<Rightarrow> Executor \<Rightarrow> ExecutorResult \<Rightarrow> error + (string \<times> string) list" where
  "collect_executor q executor exec_result =
     (case exec_branch_ref q executor of
        None \<Rightarrow> Inr []
      | Some exp_rev \<Rightarrow>
          if exp_rev = [] then Inr []
          else (case exp_hash exec_result of
                  None \<Rightarrow> Inl AssertionError
                | Some h \<Rightarrow> if h = [] then Inl AssertionError else Inr [(exp_rev, h)]))"

text \<open>
  The calls a reproduction makes on its executor, in order:
  \<^verbatim>\<open>executor.reproduce(rev=...)\<close> and \<^verbatim>\<open>executor.cleanup()\<close>.
\<close>

datatype exec_call = Reproduce Executor rev | Cleanup Executor

definition failed_msg :: "rev \<Rightarrow> string" where
  "failed_msg srev = ''Failed to reproduce experiment '' @ [CHR 0x27] @ take 7 srev @ [CHR 0x27]"

text \<open>The body of the \<^verbatim>\<open>try\<close> block of \<^verbatim>\<open>_reproduce_entry\<close>.\<close>

definition reproduce_body :: "WorkspaceQueue \<Rightarrow> QueueEntry \<Rightarrow> Executor \<Rightarrow> error + results" where
  "reproduce_body q entry executor =
     (let srev = stash_rev entry in
      case executor_reproduce q executor srev of
        Raises e \<Rightarrow> Inl e
      | Returns exec_result \<Rightarrow>
          if \<not> truthy (exp_hash exec_result) then Inl (DvcException (failed_msg srev))
          else if ref_info exec_result \<noteq> None then
            (case collect_executor q executor exec_result of
               Inl e \<Rightarrow> Inl e
             | Inr d \<Rightarrow> Inr [(srev, dict_update [] d)])
          else Inr [])"

text \<open>
  The \<^verbatim>\<open>except\<close> clauses in their order, and the \<^verbatim>\<open>finally\<close> clause: the cleanup is
  the last call of every path.
\<close>

definition U_reproduce_entry :: "WorkspaceQueue \<Rightarrow> QueueEntry \<Rightarrow> Executor \<Rightarrow> exec_call list \<times> (error + results)" where
  "U_reproduce_entry q entry executor =
     (let srev = stash_rev entry;
          outcome =
            (case reproduce_body q entry executor of
               Inr results \<Rightarrow> Inr results
             | Inl e \<Rightarrow>
                 if e = CheckpointKilledError then Inr []
                 else if is_DvcException e then Inl e
                 else Inl (DvcException (failed_msg srev)))
      in ([Reproduce executor srev, Cleanup executor], outcome))"

lemma get_pops:
  "get q = Inr ((entry, executor), q') \<Longrightarrow> length (stash_revs q') < length (stash_revs q)"
  by (auto simp: get_def setup_executor_def stash_queue_entry_def AList.delete_eq Let_def
      less_Suc_eq_le split: list.splits prod.splits)

text \<open>
  The \<^verbatim>\<open>while True\<close> loop of \<^verbatim>\<open>reproduce\<close>. It only ends by an exception; the loop
  gives the calls made, the exception, and \<^verbatim>\<open>results\<close> as it stood when it was raised.
\<close>

function reproduce_loop :: "WorkspaceQueue \<Rightarrow> results \<Rightarrow> exec_call list \<times> error \<times> results" where
  "reproduce_loop q results =
     (case get q of
        Inl e \<Rightarrow> ([], e, results)
      | Inr ((entry, executor), q') \<Rightarrow>
          (case U_reproduce_entry q' entry executor of
             (calls, Inl e) \<Rightarrow> (calls, e, results)
           | (calls, Inr r) \<Rightarrow>
               (case reproduce_loop q' (dict_update results r) of
                  (calls', e, results') \<Rightarrow> (calls @ calls', e, results'))))"
  by pat_completeness auto
termination
  by (relation "measure (\<lambda>(q, r). length (stash_revs q))") (auto dest: get_pops)

declare reproduce_loop.simps [simp del]

definition reproduce :: "WorkspaceQueue \<Rightarrow> exec_call list \<times> (error + results)" where
  "reproduce q =
     (case reproduce_loop q [] of
        (calls, e, results) \<Rightarrow>
          if is_ExpQueueEmptyError e then (calls, Inr results) else (calls, Inl e))"

subsection \<open>LocalCeleryQueue: the broker views\<close>

text \<open>
  Modelled from the spec: the name of this system's task type, \<^verbatim>\<open>run_exp.name\<close>
  (tasks.py is not among the sources).
\<close>

definition run_exp_name :: string where
  "run_exp_name = ''dvc.repo.experiments.queue.tasks.run_exp''"

text \<open>
  A broker message as the queue reads it: \<^verbatim>\<open>msg.headers.get("task")\<close>,
  \<^verbatim>\<open>msg.headers["id"]\<close>, \<^verbatim>\<open>msg.delivery_tag\<close> and the positional and keyword
  arguments of \<^verbatim>\<open>msg.decode()\<close>. Serialisation of an entry round-trips (spec, 4.1;
  \<^verbatim>\<open>QueueEntry.from_dict\<close> is in base.py), so an argument is given as the entry that
  \<^verbatim>\<open>QueueEntry.from_dict\<close> makes of it.
\<close>

record Message =
  headers_task :: "string option"
  headers_id :: task_id
  delivery_tag :: nat
  args :: "QueueEntry list"
  kwargs_entry_dict :: "QueueEntry option"

datatype wait_outcome = WaitTimeout | WaitCompleted "rev \<Rightarrow> ExecutorInfo option"

text \<open>
  The broker-backed queue with its collaborators:
  the info files by revision; the two message views of the broker, each a generator;
  the result backend (\<^verbatim>\<open>AsyncResult(task_id).ready()\<close>, and what
  \<^verbatim>\<open>AsyncResult(task_id).get(timeout=...)\<close> does: it times out, or it returns, and
  then the info files are the ones the wait ends with);
  the exception \<^verbatim>\<open>celery.reject\<close> raises for a delivery tag, if any;
  and the process manager's table of recorded output and of followed lines.
\<close>

record LocalCeleryQueue =
  infofiles :: "rev \<Rightarrow> ExecutorInfo option"
  celery_iter_queued :: "Message gen"
  celery_iter_processed :: "Message gen"
  ready :: "task_id \<Rightarrow> bool"
  async_get :: "task_id \<Rightarrow> real option \<Rightarrow> wait_outcome"
  reject_raises :: "nat \<Rightarrow> error option"
  proc_stdout :: "rev \<Rightarrow> string option"
  proc_follow :: "rev \<Rightarrow> string list"

text \<open>
  The loop that \<^verbatim>\<open>_iter_queued\<close> and \<^verbatim>\<open>_iter_processed\<close> share. Python evaluates
  \<^verbatim>\<open>args[0]\<close> before \<^verbatim>\<open>kwargs.get\<close> is called: a message of the task type with no
  positional argument ends the generator with an IndexError.
\<close>

fun iter_run_exp :: "Message list \<Rightarrow> error option \<Rightarrow> (Message \<times> QueueEntry) gen" where
  "iter_run_exp [] err = ([], err)"
| "iter_run_exp (msg # msgs) err =
     (if headers_task msg \<noteq> Some run_exp_name then iter_run_exp msgs err
      else (case args msg of
              [] \<Rightarrow> ([], Some IndexError)
            | a # _ \<Rightarrow>
                let entry = (case kwargs_entry_dict msg of Some d \<Rightarrow> d | None \<Rightarrow> a);
                    (items, e) = iter_run_exp msgs err
                in ((msg, entry) # items, e)))"

definition U_iter_queued :: "LocalCeleryQueue \<Rightarrow> (Message \<times> QueueEntry) gen" where
  "U_iter_queued q = (case celery_iter_queued q of (msgs, err) \<Rightarrow> iter_run_exp msgs err)"

definition U_iter_processed :: "LocalCeleryQueue \<Rightarrow> (Message \<times> QueueEntry) gen" where
  "U_iter_processed q = (case celery_iter_processed q of (msgs, err) \<Rightarrow> iter_run_exp msgs err)"

definition iter_queued :: "LocalCeleryQueue \<Rightarrow> QueueEntry gen" where
  "iter_queued q = (case U_iter_queued q of (items, err) \<Rightarrow> (map snd items, err))"

definition U_iter_active_tasks :: "LocalCeleryQueue \<Rightarrow> (task_id \<times> QueueEntry) gen" where
  "U_iter_active_tasks q =
     (case U_iter_processed q of
        (items, err) \<Rightarrow>
          ([(headers_id msg, entry). (msg, entry) \<leftarrow> items, \<not> ready q (headers_id msg)], err))"

definition U_iter_done_tasks :: "LocalCeleryQueue \<Rightarrow> (task_id \<times> QueueEntry) gen" where
  "U_iter_done_tasks q =
     (case U_iter_processed q of
        (items, err) \<Rightarrow>
          ([(headers_id msg, entry). (msg, entry) \<leftarrow> items, ready q (headers_id msg)], err))"

definition iter_active :: "LocalCeleryQueue \<Rightarrow> QueueEntry gen" where
  "iter_active q = (case U_iter_active_tasks q of (tasks, err) \<Rightarrow> (map snd tasks, err))"

subsection \<open>LocalCeleryQueue.get_result and iter_done\<close>

definition U_load_info :: "(rev \<Rightarrow> ExecutorInfo option) \<Rightarrow> rev \<Rightarrow> error + ExecutorInfo" where
  "U_load_info files srev = (case files srev of None \<Rightarrow> Inl FileNotFoundError | Some info \<Rightarrow> Inr info)"

text \<open>
  What \<^verbatim>\<open>get_result\<close> asks of the broker and of the result backend, in order: a view it
  starts to iterate, a wait on a task.
\<close>

datatype broker_call = IterQueued | IterProcessed | AsyncGet task_id "real option"

text \<open>The first \<^verbatim>\<open>try\<close> block: the collected result, if the info file has one.\<close>

definition fast_path :: "LocalCeleryQueue \<Rightarrow> QueueEntry \<Rightarrow> ExecutorResult option option" where
  "fast_path q entry =
     (case U_load_info (infofiles q) (stash_rev entry) of
        Inl _ \<Rightarrow> None
      | Inr executor_info \<Rightarrow> if collected executor_info then Some (result executor_info) else None)"

text \<open>The loop over \<^verbatim>\<open>_iter_active_tasks()\<close>, and the final \<^verbatim>\<open>raise\<close> behind it.\<close>

fun wait_active :: "LocalCeleryQueue \<Rightarrow> QueueEntry \<Rightarrow> real option \<Rightarrow> (task_id \<times> QueueEntry) list \<Rightarrow>
    error option \<Rightarrow> broker_call list \<times> (error + ExecutorResult option)" where
  "wait_active q entry timeout [] err =
     ([], case err of Some e \<Rightarrow> Inl e | None \<Rightarrow> Inl (DvcException ''Invalid experiment.''))"
| "wait_active q entry timeout ((task_id, active_entry) # tasks) err =
     (if stash_rev entry = stash_rev active_entry then
        (case async_get q task_id timeout of
           WaitTimeout \<Rightarrow>
             ([AsyncGet task_id timeout], Inl (DvcException ''Timed out waiting for exp to finish.''))
         | WaitCompleted files \<Rightarrow>
             ([AsyncGet task_id timeout],
              case U_load_info files (stash_rev entry) of
                Inl e \<Rightarrow> Inl e
              | Inr executor_info \<Rightarrow> Inr (result executor_info)))
      else wait_active q entry timeout tasks err)"

definition get_result :: "LocalCeleryQueue \<Rightarrow> QueueEntry \<Rightarrow> real option \<Rightarrow>
    broker_call list \<times> (error + ExecutorResult option)" where
  "get_result q entry timeout =
     (case fast_path q entry of
        Some r \<Rightarrow> ([], Inr r)
      | None \<Rightarrow>
          (case iter_queued q of
             (queued, qerr) \<Rightarrow>
               if list_ex (\<lambda>queue_entry. stash_rev entry = stash_rev queue_entry) queued then
                 ([IterQueued], Inl (DvcException ''Experiment has not been started.''))
               else (case qerr of
                       Some e \<Rightarrow> ([IterQueued], Inl e)
                     | None \<Rightarrow>
                         (case U_iter_active_tasks q of
                            (tasks, aerr) \<Rightarrow>
                              (case wait_active q entry timeout tasks aerr of
                                 (calls, out) \<Rightarrow> (IterQueued # IterProcessed # calls, out))))))"

text \<open>
  \<^verbatim>\<open>iter_done\<close>: a pair for each done task, its result from \<^verbatim>\<open>get_result(entry)\<close>
  (no timeout); an exception of \<^verbatim>\<open>get_result\<close> ends the generator.
\<close>

fun iter_done_loop :: "LocalCeleryQueue \<Rightarrow> (task_id \<times> QueueEntry) list \<Rightarrow> error option \<Rightarrow>
    (QueueEntry \<times> ExecutorResult option) gen" where
  "iter_done_loop q [] err = ([], err)"
| "iter_done_loop q ((task_id, entry) # tasks) err =
     (case snd (get_result q entry None) of
        Inl e \<Rightarrow> ([], Some e)
      | Inr r \<Rightarrow> (case iter_done_loop q tasks err of (items, e) \<Rightarrow> ((entry, r) # items, e)))"

definition iter_done :: "LocalCeleryQueue \<Rightarrow> (QueueEntry \<times> ExecutorResult option) gen" where
  "iter_done q = (case U_iter_done_tasks q of (tasks, err) \<Rightarrow> iter_done_loop q tasks err)"

subsection \<open>Name resolution\<close>

text \<open>
  Modelled from the spec: \<^verbatim>\<open>BaseStashQueue.match_queue_entry_by_name\<close> is in base.py,
  which is not among the sources. The spec (4.2): the sources are consumed in the order
  given; an identifier resolves to the first entry whose revision starts with it or whose
  symbolic name equals it; an unmatched identifier maps to null; scanning stops as soon
  as all identifiers are resolved or all sources are exhausted. The function raises
  nothing of its own; an exception of a source it consumes passes through it.
\<close>

definition entry_matches :: "string \<Rightarrow> QueueEntry \<Rightarrow> bool" where
  "entry_matches ident entry \<longleftrightarrow> prefix ident (stash_rev entry) \<or> name entry = Some ident"

fun gen_chain :: "'a gen list \<Rightarrow> 'a gen" where
  "gen_chain [] = ([], None)"
| "gen_chain ((items, Some e) # _) = (items, Some e)"
| "gen_chain ((items, None) # gs) = (case gen_chain gs of (items', e) \<Rightarrow> (items @ items', e))"

definition all_resolved :: "(string \<times> QueueEntry option) list \<Rightarrow> bool" where
  "all_resolved res = list_all (\<lambda>(ident, v). v \<noteq> None) res"

definition resolve_step :: "QueueEntry \<Rightarrow> (string \<times> QueueEntry option) list \<Rightarrow> (string \<times> QueueEntry option) list" where
  "resolve_step entry res =
     map (\<lambda>(ident, v). (ident, if v = None \<and> entry_matches ident entry then Some entry else v)) res"

fun match_scan :: "(string \<times> QueueEntry option) list \<Rightarrow> QueueEntry list \<Rightarrow> error option \<Rightarrow>
    error + (string \<times> QueueEntry option) list" where
  "match_scan res [] err =
     (if all_resolved res then Inr res
      else (case err of None \<Rightarrow> Inr res | Some e \<Rightarrow> Inl e))"
| "match_scan res (entry # entries) err =
     (if all_resolved res then Inr res
      else match_scan (resolve_step entry res) entries err)"

definition match_queue_entry_by_name :: "string list \<Rightarrow> QueueEntry gen list \<Rightarrow>
    error + (string \<times> QueueEntry option) list" where
  "match_queue_entry_by_name exp_names sources =
     (case gen_chain sources of
        (entries, err) \<Rightarrow> match_scan (map (\<lambda>ident. (ident, None)) exp_names) entries err)"

text \<open>\<^verbatim>\<open>d.get(key)\<close> and \<^verbatim>\<open>key in d\<close> on such a mapping.\<close>

definition dict_get :: "(string \<times> QueueEntry option) list \<Rightarrow> string \<Rightarrow> QueueEntry option" where
  "dict_get d k = (case map_of d k of Some (Some entry) \<Rightarrow> Some entry | _ \<Rightarrow> None)"

definition dict_contains :: "(string \<times> QueueEntry option) list \<Rightarrow> string \<Rightarrow> bool" where
  "dict_contains d k = (map_of d k \<noteq> None)"

subsection \<open>LocalCeleryQueue.kill\<close>




subsection \<open>LocalCeleryQueue.logs\<close>

definition in_queue_msg :: "string \<Rightarrow> string" where
  "in_queue_msg r = ''Experiment '' @ [CHR 0x27] @ r @ [CHR 0x27] @ '' is in queue but has not been started''"

definition no_logs_msg :: "string \<Rightarrow> string" where
  "no_logs_msg r = ''No output logs found for experiment '' @ [CHR 0x27] @ r @ [CHR 0x27]"

definition following_msg :: "string \<Rightarrow> string" where
  "following_msg r = ''Following logs for experiment '' @ [CHR 0x27] @ r @ [CHR 0x27] @
     ''. Use Ctrl+C to stop following logs (experiment execution will continue).'' @ [CHR 0x0A]"

text \<open>
  \<^verbatim>\<open>logs\<close> gives the text it writes to the UI, or the exception. The encoding only
  chooses how the recorded bytes are read and plays no part here.
\<close>

definition logs :: "LocalCeleryQueue \<Rightarrow> string \<Rightarrow> string option \<Rightarrow> bool \<Rightarrow> error + string" where
  "logs q r encoding follow =
     (case match_queue_entry_by_name [r]
             [iter_active q, (case iter_done q of (items, err) \<Rightarrow> (map fst items, err))] of
        Inl e \<Rightarrow> Inl e
      | Inr name_dict \<Rightarrow>
          (case dict_get name_dict r of
             None \<Rightarrow>
               (case match_queue_entry_by_name [r] [iter_queued q] of
                  Inl e \<Rightarrow> Inl e
                | Inr queued_dict \<Rightarrow>
                    if dict_contains queued_dict r then Inl (DvcException (in_queue_msg r))
                    else Inl (UnresolvedQueueExpNamesError [r]))
           | Some queue_entry \<Rightarrow>
               if follow then
                 Inr (following_msg r @ concat (proc_follow q (stash_rev queue_entry)))
               else (case proc_stdout q (stash_rev queue_entry) of
                       None \<Rightarrow> Inl (DvcException (no_logs_msg r))
                     | Some text \<Rightarrow> Inr text)))"

subsection \<open>LocalCeleryQueue._remove_revs\<close>

text \<open>
  The steps of a removal, in order: \<^verbatim>\<open>celery.reject(msg.delivery_tag)\<close>, and the call
  of \<^verbatim>\<open>super()._remove_revs(stash_revs)\<close> with the keys of its argument.
  Modelled from the spec: \<^verbatim>\<open>BaseStashQueue._remove_revs\<close> is in base.py, which is not
  among the sources; it removes the given stash records, and is the step \<open>StashRemove\<close>.
\<close>

datatype removal = Reject nat | StashRemove "rev list"

text \<open>The \<^verbatim>\<open>for\<close> loop of the \<^verbatim>\<open>try\<close> block: the rejections made, and the exception that ends it.\<close>

fun reject_loop :: "LocalCeleryQueue \<Rightarrow> rev list \<Rightarrow> (Message \<times> QueueEntry) list \<Rightarrow> error option \<Rightarrow>
    removal list \<times> error option" where
  "reject_loop q keys [] err = ([], err)"
| "reject_loop q keys ((msg, queue_entry) # items) err =
     (if stash_rev queue_entry \<in> set keys then
        (case reject_raises q (delivery_tag msg) of
           Some e \<Rightarrow> ([Reject (delivery_tag msg)], Some e)
         | None \<Rightarrow>
             (case reject_loop q keys items err of
                (steps, e) \<Rightarrow> (Reject (delivery_tag msg) # steps, e)))
      else reject_loop q keys items err)"

definition U_remove_revs :: "LocalCeleryQueue \<Rightarrow> (rev \<times> ExpStashEntry) list \<Rightarrow> removal list \<times> (error + unit)" where
  "U_remove_revs q stash_revs_arg =
     (case U_iter_queued q of
        (items, err) \<Rightarrow>
          (case reject_loop q (map fst stash_revs_arg) items err of
             (steps, raised) \<Rightarrow>
               (steps @ [StashRemove (map fst stash_revs_arg)],
                case raised of None \<Rightarrow> Inr () | Some e \<Rightarrow> Inl e)))"

section \<open>Vocabulary of the properties\<close>

text \<open>
  What one stash record contributes when the synchronous queue reaches it: the executor
  that \<^verbatim>\<open>get\<close> binds to its entry, the calls and the outcome of \<^verbatim>\<open>_reproduce_entry\<close>,
  and \<^verbatim>\<open>results.update(...)\<close> over a run of records whose reproduction returns.
\<close>

definition bound_executor :: "WorkspaceQueue \<Rightarrow> rev \<times> ExpStashEntry \<Rightarrow> Executor" where
  "bound_executor q item = \<lparr>executor_entry = stash_queue_entry q item\<rparr>"

definition entry_results :: "WorkspaceQueue \<Rightarrow> rev \<times> ExpStashEntry \<Rightarrow> error + results" where
  "entry_results q item =
     snd (U_reproduce_entry q (stash_queue_entry q item) (bound_executor q item))"

definition entry_calls :: "WorkspaceQueue \<Rightarrow> rev \<times> ExpStashEntry \<Rightarrow> exec_call list" where
  "entry_calls q item =
     fst (U_reproduce_entry q (stash_queue_entry q item) (bound_executor q item))"

definition accumulate :: "WorkspaceQueue \<Rightarrow> (rev \<times> ExpStashEntry) list \<Rightarrow> results \<Rightarrow> results" where
  "accumulate q items acc =
     fold (\<lambda>item acc. dict_update acc (case entry_results q item of Inr r \<Rightarrow> r | Inl _ \<Rightarrow> []))
       items acc"

text \<open>What the properties of \<^verbatim>\<open>get_result\<close> speak of.\<close>

definition no_collected_record :: "LocalCeleryQueue \<Rightarrow> QueueEntry \<Rightarrow> bool" where
  "no_collected_record q entry =
     (case infofiles q (stash_rev entry) of None \<Rightarrow> True | Some info \<Rightarrow> \<not> collected info)"

definition queued_revs :: "LocalCeleryQueue \<Rightarrow> rev list" where
  "queued_revs q = map stash_rev (fst (iter_queued q))"

definition first_active_task :: "LocalCeleryQueue \<Rightarrow> QueueEntry \<Rightarrow> (task_id \<times> QueueEntry) option" where
  "first_active_task q entry =
     find (\<lambda>(task_id, active_entry). stash_rev entry = stash_rev active_entry)
       (fst (U_iter_active_tasks q))"

text \<open>The result field of the info record of an entry (none without a record).\<close>

definition record_result :: "LocalCeleryQueue \<Rightarrow> QueueEntry \<Rightarrow> ExecutorResult option" where
  "record_result q entry =
     (case infofiles q (stash_rev entry) of None \<Rightarrow> None | Some info \<Rightarrow> result info)"

definition done_pair :: "LocalCeleryQueue \<Rightarrow> task_id \<times> QueueEntry \<Rightarrow> QueueEntry \<times> ExecutorResult option" where
  "done_pair q task = (snd task, record_result q (snd task))"

definition has_collected_record :: "LocalCeleryQueue \<Rightarrow> task_id \<times> QueueEntry \<Rightarrow> bool" where
  "has_collected_record q task = (\<not> no_collected_record q (snd task))"




text \<open>
  The delivery tags of the queued messages whose entry has one of the given stash
  revisions, in the order the queued view yields them.
\<close>

definition tags_of :: "rev list \<Rightarrow> (Message \<times> QueueEntry) list \<Rightarrow> nat list" where
  "tags_of keys items =
     map (\<lambda>item. delivery_tag (fst item)) (filter (\<lambda>item. stash_rev (snd item) \<in> set keys) items)"

definition matching_tags :: "LocalCeleryQueue \<Rightarrow> rev list \<Rightarrow> nat list" where
  "matching_tags q keys = tags_of keys (fst (U_iter_queued q))"

definition rejects_ok :: "LocalCeleryQueue \<Rightarrow> nat list \<Rightarrow> bool" where
  "rejects_ok q tags = list_all (\<lambda>tag. reject_raises q tag = None) tags"

text \<open>
  Resolution of an identifier against a run of entries, and against the active entries
  of a queue; the identifiers that \<^verbatim>\<open>kill\<close> cannot resolve, without repetition.
\<close>

definition first_match :: "QueueEntry list \<Rightarrow> string \<Rightarrow> QueueEntry option" where
  "first_match entries ident = find (entry_matches ident) entries"



definition fill :: "QueueEntry list \<Rightarrow> (string \<times> QueueEntry option) list \<Rightarrow> (string \<times> QueueEntry option) list" where
  "fill entries res =
     map (\<lambda>(ident, v). (ident, case v of Some x \<Rightarrow> Some x | None \<Rightarrow> first_match entries ident)) res"

section \<open>Example queues\<close>

definition se_a :: ExpStashEntry where
  "se_a = \<lparr>se_head_rev = ''h0'', se_baseline_rev = ''b0'', se_branch = None,
           se_name = Some ''exp-a''\<rparr>"

definition good_result :: ExecutorResult where
  "good_result = \<lparr>exp_hash = Some ''cafe'', ref_info = Some (ExpRefInfo ''refs/exps/x''),
                  force = False\<rparr>"

definition no_hash_result :: ExecutorResult where
  "no_hash_result = \<lparr>exp_hash = None, ref_info = None, force = False\<rparr>"

text \<open>
  Three stash records; the reproduction of the second is deliberately terminated, the
  other two succeed.
\<close>

definition wq3 :: WorkspaceQueue where
  "wq3 = \<lparr>repo_root_dir = ''/r'', scm_root_dir = ''/r'', ref = ''refs/exps/stash'',
     stash_revs = [(''aaaa'', se_a), (''bbbb'', se_a), (''cccc'', se_a)],
     executor_reproduce =
       (\<lambda>ex r. if r = ''bbbb'' then Raises CheckpointKilledError else Returns good_result),
     exec_branch_ref = (\<lambda>ex. Some (''exp-'' @ stash_rev (executor_entry ex)))\<rparr>"

text \<open>Two stash records, both reproduced with a result.\<close>

definition wq2 :: WorkspaceQueue where
  "wq2 = wq3\<lparr>stash_revs := [(''aaaa'', se_a), (''cccc'', se_a)]\<rparr>"

text \<open>The first reproduction gives no experiment hash.\<close>

definition wq_no_hash :: WorkspaceQueue where
  "wq_no_hash = wq3\<lparr>executor_reproduce := (\<lambda>ex r. Returns no_hash_result)\<rparr>"

text \<open>Entries, messages of the task type, and a broker-backed queue with nothing in it.\<close>

definition entry_a :: QueueEntry where
  "entry_a = \<lparr>dvc_root = ''/r'', scm_root = ''/r'', stash_ref = ''refs/exps/celery/stash'',
     stash_rev = ''aaaa'', baseline_rev = ''b0'', branch = None, name = Some ''exp-a'',
     head_rev = ''h0''\<rparr>"

definition entry_b :: QueueEntry where
  "entry_b = entry_a\<lparr>stash_rev := ''bbbb'', name := None\<rparr>"

definition run_exp_msg :: "nat \<Rightarrow> task_id \<Rightarrow> QueueEntry \<Rightarrow> Message" where
  "run_exp_msg tag task entry =
     \<lparr>headers_task = Some run_exp_name, headers_id = task, delivery_tag = tag,
      args = [entry], kwargs_entry_dict = None\<rparr>"

definition cq_empty :: LocalCeleryQueue where
  "cq_empty = \<lparr>infofiles = (\<lambda>r. None), celery_iter_queued = ([], None),
     celery_iter_processed = ([], None), ready = (\<lambda>t. False),
     async_get = (\<lambda>t timeout. WaitTimeout), reject_raises = (\<lambda>tag. None),
     proc_stdout = (\<lambda>r. None), proc_follow = (\<lambda>r. [])\<rparr>"

definition collected_info :: ExecutorInfo where
  "collected_info = \<lparr>collected = True, result = Some good_result\<rparr>"

definition uncollected_info :: ExecutorInfo where
  "uncollected_info = \<lparr>collected = False, result = Some good_result\<rparr>"

text \<open>The info record of \<open>aaaa\<close> is written and collected.\<close>

definition cq_collected :: LocalCeleryQueue where
  "cq_collected = cq_empty\<lparr>infofiles := (\<lambda>r. if r = ''aaaa'' then Some collected_info else None)\<rparr>"

text \<open>\<open>aaaa\<close> is queued, \<open>bbbb\<close> is delivered and not terminal.\<close>

definition cq_queued :: LocalCeleryQueue where
  "cq_queued = cq_empty\<lparr>celery_iter_queued := ([run_exp_msg 1 ''t1'' entry_a], None),
     celery_iter_processed := ([run_exp_msg 2 ''t2'' entry_b], None)\<rparr>"

text \<open>
  \<open>aaaa\<close> is delivered and not terminal; a wait on its task with a timeout times out, a
  wait without one ends with an info record that is written and not collected.
\<close>

definition cq_active :: LocalCeleryQueue where
  "cq_active = cq_empty\<lparr>celery_iter_processed := ([run_exp_msg 1 ''t1'' entry_a], None),
     async_get := (\<lambda>t timeout. if timeout = None
        then WaitCompleted (\<lambda>r. if r = ''aaaa'' then Some uncollected_info else None)
        else WaitTimeout)\<rparr>"

text \<open>\<open>aaaa\<close> is delivered and terminal; its info record is missing, uncollected, collected.\<close>

definition cq_done_no_info :: LocalCeleryQueue where
  "cq_done_no_info = cq_empty\<lparr>celery_iter_processed := ([run_exp_msg 1 ''t1'' entry_a], None),
     ready := (\<lambda>t. True)\<rparr>"

definition cq_done_uncollected :: LocalCeleryQueue where
  "cq_done_uncollected =
     cq_done_no_info\<lparr>infofiles := (\<lambda>r. if r = ''aaaa'' then Some uncollected_info else None)\<rparr>"

definition cq_done_collected :: LocalCeleryQueue where
  "cq_done_collected =
     cq_done_no_info\<lparr>infofiles := (\<lambda>r. if r = ''aaaa'' then Some collected_info else None)\<rparr>"

text \<open>
  Three delivered messages: \<open>aaaa\<close> not terminal, a message of another task type, and
  \<open>bbbb\<close> terminal with no info record.
\<close>

definition other_msg :: Message where
  "other_msg = \<lparr>headers_task = Some ''dvc_task.proc.tasks.run'', headers_id = ''t9'',
     delivery_tag = 9, args = [], kwargs_entry_dict = None\<rparr>"


text \<open>
  Two queued messages of the task type around one of another type; the same with a
  broker that refuses to reject the first; the same with a queued view that breaks off
  behind its messages.
\<close>

definition cq_two_queued :: LocalCeleryQueue where
  "cq_two_queued = cq_empty\<lparr>celery_iter_queued :=
     ([run_exp_msg 1 ''t1'' entry_a, other_msg, run_exp_msg 2 ''t2'' entry_b], None)\<rparr>"

definition cq_reject_fails :: LocalCeleryQueue where
  "cq_reject_fails = cq_two_queued\<lparr>reject_raises :=
     (\<lambda>tag. if tag = 1 then Some (OtherException ''reject failed'') else None)\<rparr>"

definition cq_view_fails :: LocalCeleryQueue where
  "cq_view_fails = cq_empty\<lparr>celery_iter_queued :=
     ([run_exp_msg 1 ''t1'' entry_a, run_exp_msg 2 ''t2'' entry_b],
      Some (OtherException ''broker failed''))\<rparr>"

definition both_revs :: "(rev \<times> ExpStashEntry) list" where
  "both_revs = [(''aaaa'', se_a), (''bbbb'', se_a)]"


section \<open>Properties of the synchronous queue\<close>

subsection \<open>Auxiliary facts\<close>

lemma U_reproduce_entry_frame:
  assumes "executor_reproduce q' = executor_reproduce q"
    and "exec_branch_ref q' = exec_branch_ref q"
  shows "U_reproduce_entry q' = U_reproduce_entry q"
proof -
  have c: "collect_executor q' = collect_executor q"
    using assms by (intro ext) (simp add: collect_executor_def)
  have b: "reproduce_body q' = reproduce_body q"
    unfolding reproduce_body_def by (intro ext) (simp only: c assms)
  show ?thesis
    unfolding U_reproduce_entry_def by (intro ext) (simp only: b)
qed

lemma get_Cons:
  "stash_revs q = item # rest \<Longrightarrow>
     get q = Inr ((stash_queue_entry q item, bound_executor q item),
                  q\<lparr>stash_revs := AList.delete (fst item) rest\<rparr>)"
  by (cases item)
    (simp add: get_def setup_executor_def stash_queue_entry_def bound_executor_def Let_def
      AList.delete_eq)

lemma get_Nil:
  "stash_revs q = [] \<Longrightarrow> get q = Inl (ExpQueueEmptyError ''No experiments in the queue.'')"
  by (simp add: get_def)

lemma delete_absent: "k \<notin> fst ` set al \<Longrightarrow> AList.delete k al = al"
  by (induction al) (auto simp: AList.delete_eq)

lemma stash_queue_entry_frame:
  "stash_queue_entry (q\<lparr>stash_revs := x\<rparr>) = stash_queue_entry q"
  by (intro ext) (simp add: stash_queue_entry_def)

lemma bound_executor_frame: "bound_executor (q\<lparr>stash_revs := x\<rparr>) = bound_executor q"
  by (intro ext) (simp add: bound_executor_def stash_queue_entry_frame)

lemma entry_results_frame: "entry_results (q\<lparr>stash_revs := x\<rparr>) = entry_results q"
  by (intro ext)
    (simp add: entry_results_def stash_queue_entry_frame bound_executor_frame
      U_reproduce_entry_frame [of "q\<lparr>stash_revs := x\<rparr>" q])

lemma entry_calls_frame: "entry_calls (q\<lparr>stash_revs := x\<rparr>) = entry_calls q"
  by (intro ext)
    (simp add: entry_calls_def stash_queue_entry_frame bound_executor_frame
      U_reproduce_entry_frame [of "q\<lparr>stash_revs := x\<rparr>" q])

lemma accumulate_frame: "accumulate (q\<lparr>stash_revs := x\<rparr>) = accumulate q"
  by (intro ext) (simp add: accumulate_def entry_results_frame)

lemma accumulate_Cons:
  "accumulate q (item # rest) acc =
     accumulate q rest (dict_update acc (case entry_results q item of Inr r \<Rightarrow> r | Inl _ \<Rightarrow> []))"
  by (simp add: accumulate_def)

lemma dict_update_Nil: "dict_update d [] = d"
  by (simp add: dict_update_def)

lemma reproduce_loop_Nil:
  "stash_revs q = [] \<Longrightarrow>
     reproduce_loop q acc = ([], ExpQueueEmptyError ''No experiments in the queue.'', acc)"
  by (subst reproduce_loop.simps) (simp add: get_Nil)

lemma reproduce_loop_Cons:
  "stash_revs q = item # rest \<Longrightarrow>
     reproduce_loop q acc =
       (case entry_results q item of
          Inl e \<Rightarrow> (entry_calls q item, e, acc)
        | Inr r \<Rightarrow>
            (case reproduce_loop (q\<lparr>stash_revs := AList.delete (fst item) rest\<rparr>) (dict_update acc r) of
               (calls', e, results') \<Rightarrow> (entry_calls q item @ calls', e, results')))"
  apply (subst reproduce_loop.simps)
  apply (simp add: get_Cons entry_results_def entry_calls_def
      U_reproduce_entry_frame [of "q\<lparr>stash_revs := AList.delete (fst item) rest\<rparr>" q]
      split: prod.splits sum.splits)
  done

lemma reproduce_loop_all_return:
  "stash_revs q = items \<Longrightarrow> distinct (map fst items) \<Longrightarrow>
   list_all (\<lambda>item. \<not> isl (entry_results q item)) items \<Longrightarrow>
   reproduce_loop q acc =
     (concat (map (entry_calls q) items), ExpQueueEmptyError ''No experiments in the queue.'',
      accumulate q items acc)"
proof (induction items arbitrary: q acc)
  case Nil
  then show ?case by (simp add: reproduce_loop_Nil accumulate_def)
next
  case (Cons item rest)
  let ?q' = "q\<lparr>stash_revs := rest\<rparr>"
  from Cons.prems obtain r where r: "entry_results q item = Inr r"
    by (cases "entry_results q item") auto
  from Cons.prems have d: "AList.delete (fst item) rest = rest"
    by (intro delete_absent) auto
  have all': "list_all (\<lambda>item. \<not> isl (entry_results ?q' item)) rest"
    using Cons.prems by (simp add: entry_results_frame)
  have ih: "reproduce_loop ?q' (dict_update acc r) =
     (concat (map (entry_calls ?q') rest), ExpQueueEmptyError ''No experiments in the queue.'',
      accumulate ?q' rest (dict_update acc r))"
    using Cons.prems all' by (intro Cons.IH) auto
  show ?case
    using Cons.prems(1) r d ih
    by (simp add: reproduce_loop_Cons entry_calls_frame accumulate_frame accumulate_Cons)
qed

subsection \<open>C7: get pops the oldest stash record\<close>



subsection \<open>C9: reproduce absorbs the empty-queue error\<close>

text \<open>
  C9. \<^verbatim>\<open>WorkspaceQueue.reproduce\<close> on a stash without records makes no call and returns
  the empty mapping. It never raises the empty-queue error: whenever the drain loop ends
  with it, \<^verbatim>\<open>reproduce\<close> returns the results as they stood at that moment. When the
  reproduction of every record returns, the drain goes through all records in stash
  order and \<^verbatim>\<open>reproduce\<close> returns exactly what their results, updated one after the other
  into the empty mapping, accumulate to.
\<close>

theorem reproduce_absorbs_empty_queue:
  "(stash_revs q = [] \<longrightarrow> reproduce q = ([], Inr [])) \<and>
   (\<forall>msg. snd (reproduce q) \<noteq> Inl (ExpQueueEmptyError msg)) \<and>
   (\<forall>calls e results.
      reproduce_loop q [] = (calls, e, results) \<and> is_ExpQueueEmptyError e \<longrightarrow>
      reproduce q = (calls, Inr results)) \<and>
   (distinct (map fst (stash_revs q)) \<and>
    list_all (\<lambda>item. \<not> isl (entry_results q item)) (stash_revs q) \<longrightarrow>
      reproduce q =
        (concat (map (entry_calls q) (stash_revs q)), Inr (accumulate q (stash_revs q) [])))"
proof (intro conjI allI impI)
  assume "stash_revs q = []"
  then show "reproduce q = ([], Inr [])"
    by (simp add: reproduce_def reproduce_loop_Nil)
next
  fix msg
  show "snd (reproduce q) \<noteq> Inl (ExpQueueEmptyError msg)"
    by (auto simp: reproduce_def split: prod.splits if_splits)
next
  fix calls e results
  assume "reproduce_loop q [] = (calls, e, results) \<and> is_ExpQueueEmptyError e"
  then show "reproduce q = (calls, Inr results)"
    by (simp add: reproduce_def)
next
  assume a: "distinct (map fst (stash_revs q)) \<and>
    list_all (\<lambda>item. \<not> isl (entry_results q item)) (stash_revs q)"
  have "reproduce_loop q [] =
     (concat (map (entry_calls q) (stash_revs q)),
      ExpQueueEmptyError ''No experiments in the queue.'', accumulate q (stash_revs q) [])"
    using a by (intro reproduce_loop_all_return) auto
  then show "reproduce q =
        (concat (map (entry_calls q) (stash_revs q)), Inr (accumulate q (stash_revs q) []))"
    by (simp add: reproduce_def)
qed

theorem reproduce_absorbs_empty_queue_witness:
  "distinct (map fst (stash_revs wq2)) \<and>
   list_all (\<lambda>item. \<not> isl (entry_results wq2 item)) (stash_revs wq2) \<and>
   snd (reproduce wq2) =
     Inr [(''aaaa'', [(''exp-aaaa'', ''cafe'')]), (''cccc'', [(''exp-cccc'', ''cafe'')])] \<and>
   stash_revs (wq2\<lparr>stash_revs := []\<rparr>) = [] \<and>
   reproduce (wq2\<lparr>stash_revs := []\<rparr>) = ([], Inr [])"
proof -
  have d: "distinct (map fst (stash_revs wq2))"
    by code_simp
  have r: "list_all (\<lambda>item. \<not> isl (entry_results wq2 item)) (stash_revs wq2)"
    by code_simp
  have v: "accumulate wq2 (stash_revs wq2) [] =
      [(''aaaa'', [(''exp-aaaa'', ''cafe'')]), (''cccc'', [(''exp-cccc'', ''cafe'')])]"
    by code_simp
  have e: "stash_revs (wq2\<lparr>stash_revs := []\<rparr>) = []"
    by simp
  from reproduce_absorbs_empty_queue [of wq2] d r v
    reproduce_absorbs_empty_queue [of "wq2\<lparr>stash_revs := []\<rparr>"] e
  show ?thesis by simp
qed

subsection \<open>C2: outcomes of one reproduction inside the drain loop\<close>

lemma stash_rev_stash_queue_entry: "stash_rev (stash_queue_entry q item) = fst item"
  by (cases item) (simp add: stash_queue_entry_def)

lemma entry_results_no_hash:
  "executor_reproduce q (bound_executor q item) (fst item) = Returns r \<Longrightarrow>
   \<not> truthy (exp_hash r) \<Longrightarrow>
   entry_results q item = Inl (DvcException (failed_msg (fst item)))"
  by (simp add: entry_results_def U_reproduce_entry_def reproduce_body_def Let_def
      stash_rev_stash_queue_entry)

lemma entry_results_killed:
  "executor_reproduce q (bound_executor q item) (fst item) = Raises CheckpointKilledError \<Longrightarrow>
   entry_results q item = Inr []"
  by (simp add: entry_results_def U_reproduce_entry_def reproduce_body_def Let_def
      stash_rev_stash_queue_entry)

text \<open>
  The claim as stated fails on \<open>wq3\<close>: the reproduction of its second record is
  deliberately terminated, yet the third record is reproduced after it, and the mapping
  returned holds the results of the first and of the third.
\<close>

theorem checkpoint_kill_keeps_draining:
  "executor_reproduce wq3 (bound_executor wq3 (''bbbb'', se_a)) ''bbbb'' = Raises CheckpointKilledError \<and>
   fst (reproduce wq3) =
     [Reproduce (bound_executor wq3 (''aaaa'', se_a)) ''aaaa'',
      Cleanup (bound_executor wq3 (''aaaa'', se_a)),
      Reproduce (bound_executor wq3 (''bbbb'', se_a)) ''bbbb'',
      Cleanup (bound_executor wq3 (''bbbb'', se_a)),
      Reproduce (bound_executor wq3 (''cccc'', se_a)) ''cccc'',
      Cleanup (bound_executor wq3 (''cccc'', se_a))] \<and>
   snd (reproduce wq3) =
     Inr [(''aaaa'', [(''exp-aaaa'', ''cafe'')]), (''cccc'', [(''exp-cccc'', ''cafe'')])]"
  by code_simp

text \<open>
  C2, amended. In \<^verbatim>\<open>_reproduce_entry\<close> the executor is asked to reproduce and then, on
  every path, to clean up. A reproduction that returns a result without an experiment
  hash raises the DvcException "Failed to reproduce experiment", which ends the drain
  loop and the call of \<^verbatim>\<open>reproduce\<close> with that error. A deliberately terminated
  reproduction (CheckpointKilledError) is swallowed: \<^verbatim>\<open>_reproduce_entry\<close> returns the
  empty mapping, and the drain loop goes on with the remaining stash records, the
  results accumulated so far unchanged.
\<close>

theorem reproduce_entry_outcomes:
  "(\<exists>out. U_reproduce_entry q entry executor =
       ([Reproduce executor (stash_rev entry), Cleanup executor], out)) \<and>
   (\<forall>r. executor_reproduce q executor (stash_rev entry) = Returns r \<and> \<not> truthy (exp_hash r) \<longrightarrow>
      snd (U_reproduce_entry q entry executor) = Inl (DvcException (failed_msg (stash_rev entry)))) \<and>
   (executor_reproduce q executor (stash_rev entry) = Raises CheckpointKilledError \<longrightarrow>
      snd (U_reproduce_entry q entry executor) = Inr []) \<and>
   (\<forall>item rest acc r.
      stash_revs q = item # rest \<and>
      executor_reproduce q (bound_executor q item) (fst item) = Returns r \<and> \<not> truthy (exp_hash r) \<longrightarrow>
      reproduce_loop q acc = (entry_calls q item, DvcException (failed_msg (fst item)), acc) \<and>
      reproduce q = (entry_calls q item, Inl (DvcException (failed_msg (fst item))))) \<and>
   (\<forall>item rest acc.
      stash_revs q = item # rest \<and>
      executor_reproduce q (bound_executor q item) (fst item) = Raises CheckpointKilledError \<longrightarrow>
      reproduce_loop q acc =
        (case reproduce_loop (q\<lparr>stash_revs := AList.delete (fst item) rest\<rparr>) acc of
           (calls', e, results') \<Rightarrow> (entry_calls q item @ calls', e, results')))"
proof (intro conjI allI impI)
  show "\<exists>out. U_reproduce_entry q entry executor =
       ([Reproduce executor (stash_rev entry), Cleanup executor], out)"
    by (simp add: U_reproduce_entry_def Let_def)
next
  fix r
  assume "executor_reproduce q executor (stash_rev entry) = Returns r \<and> \<not> truthy (exp_hash r)"
  then show "snd (U_reproduce_entry q entry executor) =
      Inl (DvcException (failed_msg (stash_rev entry)))"
    by (simp add: U_reproduce_entry_def reproduce_body_def Let_def)
next
  assume "executor_reproduce q executor (stash_rev entry) = Raises CheckpointKilledError"
  then show "snd (U_reproduce_entry q entry executor) = Inr []"
    by (simp add: U_reproduce_entry_def reproduce_body_def Let_def)
next
  fix item rest acc r
  assume a: "stash_revs q = item # rest \<and>
      executor_reproduce q (bound_executor q item) (fst item) = Returns r \<and> \<not> truthy (exp_hash r)"
  then have e: "entry_results q item = Inl (DvcException (failed_msg (fst item)))"
    by (simp add: entry_results_no_hash)
  from a e show "reproduce_loop q acc = (entry_calls q item, DvcException (failed_msg (fst item)), acc)"
    by (simp add: reproduce_loop_Cons)
  from a e show "reproduce q = (entry_calls q item, Inl (DvcException (failed_msg (fst item))))"
    by (simp add: reproduce_def reproduce_loop_Cons)
next
  fix item rest acc
  assume a: "stash_revs q = item # rest \<and>
      executor_reproduce q (bound_executor q item) (fst item) = Raises CheckpointKilledError"
  then have e: "entry_results q item = Inr []"
    by (simp add: entry_results_killed)
  from a e show "reproduce_loop q acc =
        (case reproduce_loop (q\<lparr>stash_revs := AList.delete (fst item) rest\<rparr>) acc of
           (calls', e, results') \<Rightarrow> (entry_calls q item @ calls', e, results'))"
    by (simp add: reproduce_loop_Cons dict_update_Nil)
qed

theorem reproduce_entry_outcomes_witness:
  "stash_revs wq_no_hash = (''aaaa'', se_a) # [(''bbbb'', se_a), (''cccc'', se_a)] \<and>
   executor_reproduce wq_no_hash (bound_executor wq_no_hash (''aaaa'', se_a)) ''aaaa'' =
     Returns no_hash_result \<and>
   \<not> truthy (exp_hash no_hash_result) \<and>
   snd (reproduce wq_no_hash) = Inl (DvcException (failed_msg ''aaaa'')) \<and>
   executor_reproduce wq3 (bound_executor wq3 (''bbbb'', se_a)) ''bbbb'' = Raises CheckpointKilledError \<and>
   snd (U_reproduce_entry wq3 (stash_queue_entry wq3 (''bbbb'', se_a))
          (bound_executor wq3 (''bbbb'', se_a))) = Inr []"
proof -
  have s: "stash_revs wq_no_hash = (''aaaa'', se_a) # [(''bbbb'', se_a), (''cccc'', se_a)]"
    by (simp add: wq_no_hash_def wq3_def)
  have x: "executor_reproduce wq_no_hash (bound_executor wq_no_hash (''aaaa'', se_a))
      (fst (''aaaa'', se_a)) = Returns no_hash_result"
    by (simp add: wq_no_hash_def)
  have t: "\<not> truthy (exp_hash no_hash_result)"
    by (simp add: no_hash_result_def)
  have k: "executor_reproduce wq3 (bound_executor wq3 (''bbbb'', se_a))
      (stash_rev (stash_queue_entry wq3 (''bbbb'', se_a))) = Raises CheckpointKilledError"
    by (simp add: wq3_def stash_rev_stash_queue_entry)
  from reproduce_entry_outcomes [of wq_no_hash] s x t
  have 1: "snd (reproduce wq_no_hash) = Inl (DvcException (failed_msg ''aaaa''))"
    by fastforce
  from reproduce_entry_outcomes
    [of wq3 "stash_queue_entry wq3 (''bbbb'', se_a)" "bound_executor wq3 (''bbbb'', se_a)"] k
  have 2: "snd (U_reproduce_entry wq3 (stash_queue_entry wq3 (''bbbb'', se_a))
          (bound_executor wq3 (''bbbb'', se_a))) = Inr []"
    by blast
  from s x t k 1 2 show ?thesis
    by (simp add: stash_rev_stash_queue_entry)
qed

section \<open>Properties of the broker-backed queue\<close>

subsection \<open>Auxiliary facts\<close>

lemma wait_active_find:
  "wait_active q entry timeout tasks err =
     (case find (\<lambda>(task_id, active_entry). stash_rev entry = stash_rev active_entry) tasks of
        Some (task_id, active_entry) \<Rightarrow>
          ([AsyncGet task_id timeout],
           case async_get q task_id timeout of
             WaitTimeout \<Rightarrow> Inl (DvcException ''Timed out waiting for exp to finish.'')
           | WaitCompleted files \<Rightarrow>
               (case files (stash_rev entry) of
                  None \<Rightarrow> Inl FileNotFoundError
                | Some info \<Rightarrow> Inr (result info)))
      | None \<Rightarrow>
          ([], case err of Some e \<Rightarrow> Inl e | None \<Rightarrow> Inl (DvcException ''Invalid experiment.'')))"
  by (induction tasks)
    (auto simp: U_load_info_def split: wait_outcome.splits option.splits)

lemma fast_path_collected:
  "infofiles q (stash_rev entry) = Some info \<Longrightarrow> collected info \<Longrightarrow>
     fast_path q entry = Some (result info)"
  by (simp add: fast_path_def U_load_info_def)

lemma fast_path_none: "no_collected_record q entry \<Longrightarrow> fast_path q entry = None"
  by (auto simp: fast_path_def U_load_info_def no_collected_record_def split: option.splits)

lemma get_result_queued:
  "no_collected_record q entry \<Longrightarrow> stash_rev entry \<in> set (queued_revs q) \<Longrightarrow>
     get_result q entry timeout =
       ([IterQueued], Inl (DvcException ''Experiment has not been started.''))"
  by (auto simp: get_result_def fast_path_none queued_revs_def list_ex_iff split: prod.splits)

lemma get_result_queued_failure:
  "no_collected_record q entry \<Longrightarrow> stash_rev entry \<notin> set (queued_revs q) \<Longrightarrow>
   snd (iter_queued q) = Some e \<Longrightarrow>
     get_result q entry timeout = ([IterQueued], Inl e)"
  by (auto simp: get_result_def fast_path_none queued_revs_def list_ex_iff split: prod.splits)

lemma get_result_scan_active:
  "no_collected_record q entry \<Longrightarrow> stash_rev entry \<notin> set (queued_revs q) \<Longrightarrow>
   snd (iter_queued q) = None \<Longrightarrow>
     get_result q entry timeout =
       (case wait_active q entry timeout (fst (U_iter_active_tasks q)) (snd (U_iter_active_tasks q)) of
          (calls, out) \<Rightarrow> (IterQueued # IterProcessed # calls, out))"
  by (auto simp: get_result_def fast_path_none queued_revs_def list_ex_iff split: prod.splits)

subsection \<open>C1: the four checks of get_result\<close>

text \<open>
  C1. \<^verbatim>\<open>LocalCeleryQueue.get_result\<close> makes its checks in this order.
  (1) An info record that exists and reports collected: its result is returned, and
  neither the broker nor the result backend is asked anything.
  (2) Otherwise, the stash revision among the queued entries: the error "Experiment has
  not been started."
  (3) Otherwise, with the queued view read to its end, the stash revision among the
  active tasks: the call waits on the first such task with the timeout it was given
  (none meaning unbounded); a timeout is the error "Timed out waiting for exp to
  finish."; on completion the info record is read again, and its result is returned
  (FileNotFoundError when there is still no record).
  (4) Otherwise, with both views read to their end: the error "Invalid experiment."
  An exception that ends a broker view before the revision was found passes through.
\<close>

theorem get_result_checks:
  "(\<forall>info. infofiles q (stash_rev entry) = Some info \<and> collected info \<longrightarrow>
      get_result q entry timeout = ([], Inr (result info))) \<and>
   (no_collected_record q entry \<and> stash_rev entry \<in> set (queued_revs q) \<longrightarrow>
      get_result q entry timeout =
        ([IterQueued], Inl (DvcException ''Experiment has not been started.''))) \<and>
   (\<forall>task_id active_entry.
      no_collected_record q entry \<and> stash_rev entry \<notin> set (queued_revs q) \<and>
      snd (iter_queued q) = None \<and> first_active_task q entry = Some (task_id, active_entry) \<longrightarrow>
      fst (get_result q entry timeout) = [IterQueued, IterProcessed, AsyncGet task_id timeout] \<and>
      (async_get q task_id timeout = WaitTimeout \<longrightarrow>
         snd (get_result q entry timeout) =
           Inl (DvcException ''Timed out waiting for exp to finish.'')) \<and>
      (\<forall>files. async_get q task_id timeout = WaitCompleted files \<longrightarrow>
         snd (get_result q entry timeout) =
           (case files (stash_rev entry) of
              None \<Rightarrow> Inl FileNotFoundError
            | Some info \<Rightarrow> Inr (result info)))) \<and>
   (no_collected_record q entry \<and> stash_rev entry \<notin> set (queued_revs q) \<and>
    snd (iter_queued q) = None \<and> first_active_task q entry = None \<and>
    snd (U_iter_active_tasks q) = None \<longrightarrow>
      get_result q entry timeout =
        ([IterQueued, IterProcessed], Inl (DvcException ''Invalid experiment.''))) \<and>
   (\<forall>e. no_collected_record q entry \<and> stash_rev entry \<notin> set (queued_revs q) \<and>
      snd (iter_queued q) = Some e \<longrightarrow>
      get_result q entry timeout = ([IterQueued], Inl e)) \<and>
   (\<forall>e. no_collected_record q entry \<and> stash_rev entry \<notin> set (queued_revs q) \<and>
      snd (iter_queued q) = None \<and> first_active_task q entry = None \<and>
      snd (U_iter_active_tasks q) = Some e \<longrightarrow>
      get_result q entry timeout = ([IterQueued, IterProcessed], Inl e))"
proof (intro conjI allI impI)
  fix info
  assume "infofiles q (stash_rev entry) = Some info \<and> collected info"
  then show "get_result q entry timeout = ([], Inr (result info))"
    by (simp add: get_result_def fast_path_collected)
next
  assume "no_collected_record q entry \<and> stash_rev entry \<in> set (queued_revs q)"
  then show "get_result q entry timeout =
      ([IterQueued], Inl (DvcException ''Experiment has not been started.''))"
    by (simp add: get_result_queued)
next
  fix task_id active_entry
  assume a: "no_collected_record q entry \<and> stash_rev entry \<notin> set (queued_revs q) \<and>
      snd (iter_queued q) = None \<and> first_active_task q entry = Some (task_id, active_entry)"
  then have g: "get_result q entry timeout =
      (case wait_active q entry timeout (fst (U_iter_active_tasks q)) (snd (U_iter_active_tasks q)) of
         (calls, out) \<Rightarrow> (IterQueued # IterProcessed # calls, out))"
    by (simp add: get_result_scan_active)
  from a have f: "find (\<lambda>(task_id, active_entry). stash_rev entry = stash_rev active_entry)
      (fst (U_iter_active_tasks q)) = Some (task_id, active_entry)"
    by (simp add: first_active_task_def)
  show "fst (get_result q entry timeout) = [IterQueued, IterProcessed, AsyncGet task_id timeout]"
    by (simp add: g wait_active_find f)
  {
    assume "async_get q task_id timeout = WaitTimeout"
    then show "snd (get_result q entry timeout) =
        Inl (DvcException ''Timed out waiting for exp to finish.'')"
      by (simp add: g wait_active_find f)
  }
  {
    fix files
    assume "async_get q task_id timeout = WaitCompleted files"
    then show "snd (get_result q entry timeout) =
        (case files (stash_rev entry) of
           None \<Rightarrow> Inl FileNotFoundError
         | Some info \<Rightarrow> Inr (result info))"
      by (simp add: g wait_active_find f)
  }
next
  assume a: "no_collected_record q entry \<and> stash_rev entry \<notin> set (queued_revs q) \<and>
    snd (iter_queued q) = None \<and> first_active_task q entry = None \<and>
    snd (U_iter_active_tasks q) = None"
  then show "get_result q entry timeout =
      ([IterQueued, IterProcessed], Inl (DvcException ''Invalid experiment.''))"
    by (simp add: get_result_scan_active wait_active_find first_active_task_def)
next
  fix e
  assume "no_collected_record q entry \<and> stash_rev entry \<notin> set (queued_revs q) \<and>
      snd (iter_queued q) = Some e"
  then show "get_result q entry timeout = ([IterQueued], Inl e)"
    by (simp add: get_result_queued_failure)
next
  fix e
  assume "no_collected_record q entry \<and> stash_rev entry \<notin> set (queued_revs q) \<and>
      snd (iter_queued q) = None \<and> first_active_task q entry = None \<and>
      snd (U_iter_active_tasks q) = Some e"
  then show "get_result q entry timeout = ([IterQueued, IterProcessed], Inl e)"
    by (simp add: get_result_scan_active wait_active_find first_active_task_def)
qed

theorem get_result_checks_witness:
  "infofiles cq_collected (stash_rev entry_a) = Some collected_info \<and> collected collected_info \<and>
   get_result cq_collected entry_a None = ([], Inr (result collected_info)) \<and>
   no_collected_record cq_queued entry_a \<and> stash_rev entry_a \<in> set (queued_revs cq_queued) \<and>
   get_result cq_queued entry_a None =
     ([IterQueued], Inl (DvcException ''Experiment has not been started.'')) \<and>
   first_active_task cq_active entry_a = Some (''t1'', entry_a) \<and>
   async_get cq_active ''t1'' (Some 5) = WaitTimeout \<and>
   get_result cq_active entry_a (Some 5) =
     ([IterQueued, IterProcessed, AsyncGet ''t1'' (Some 5)],
      Inl (DvcException ''Timed out waiting for exp to finish.'')) \<and>
   first_active_task cq_empty entry_a = None \<and>
   get_result cq_empty entry_a None =
     ([IterQueued, IterProcessed], Inl (DvcException ''Invalid experiment.''))"
proof -
  have c1: "infofiles cq_collected (stash_rev entry_a) = Some collected_info"
    by (simp add: cq_collected_def entry_a_def)
  have c2: "collected collected_info"
    by (simp add: collected_info_def)
  have q1: "no_collected_record cq_queued entry_a"
    by code_simp
  have q2: "stash_rev entry_a \<in> set (queued_revs cq_queued)"
    by code_simp
  have a1: "no_collected_record cq_active entry_a"
    by code_simp
  have a2: "stash_rev entry_a \<notin> set (queued_revs cq_active)"
    by code_simp
  have a3: "snd (iter_queued cq_active) = None"
    by code_simp
  have a4: "first_active_task cq_active entry_a = Some (''t1'', entry_a)"
    by code_simp
  have a5: "async_get cq_active ''t1'' (Some 5) = WaitTimeout"
    by (simp add: cq_active_def cq_empty_def)
  have e1: "no_collected_record cq_empty entry_a"
    by code_simp
  have e2: "stash_rev entry_a \<notin> set (queued_revs cq_empty)"
    by code_simp
  have e3: "snd (iter_queued cq_empty) = None"
    by code_simp
  have e4: "first_active_task cq_empty entry_a = None"
    by code_simp
  have e5: "snd (U_iter_active_tasks cq_empty) = None"
    by code_simp
  from get_result_checks [of cq_collected entry_a None] c1 c2
  have r1: "get_result cq_collected entry_a None = ([], Inr (result collected_info))"
    by blast
  from get_result_checks [of cq_queued entry_a None] q1 q2
  have r2: "get_result cq_queued entry_a None =
      ([IterQueued], Inl (DvcException ''Experiment has not been started.''))"
    by blast
  from get_result_checks [of cq_active entry_a "Some 5"] a1 a2 a3 a4 a5
  have r3: "fst (get_result cq_active entry_a (Some 5)) =
        [IterQueued, IterProcessed, AsyncGet ''t1'' (Some 5)] \<and>
      snd (get_result cq_active entry_a (Some 5)) =
        Inl (DvcException ''Timed out waiting for exp to finish.'')"
    by blast
  from get_result_checks [of cq_empty entry_a None] e1 e2 e3 e4 e5
  have r4: "get_result cq_empty entry_a None =
      ([IterQueued, IterProcessed], Inl (DvcException ''Invalid experiment.''))"
    by blast
  from r3 have r3': "get_result cq_active entry_a (Some 5) =
     ([IterQueued, IterProcessed, AsyncGet ''t1'' (Some 5)],
      Inl (DvcException ''Timed out waiting for exp to finish.''))"
    by (simp add: prod_eq_iff)
  from c1 c2 r1 q1 q2 r2 a4 a5 r3' e4 r4 show ?thesis
    by simp
qed

subsection \<open>C10: the collected flag is read on the fast path only\<close>

text \<open>
  C10. When \<^verbatim>\<open>get_result\<close> does not return on its fast path, finds the entry among the
  active tasks and the wait on the task completes, it returns the result field of the
  info record it then loads, whatever that record's collected flag says.
\<close>

theorem get_result_returns_reloaded_result:
  "no_collected_record q entry \<Longrightarrow> stash_rev entry \<notin> set (queued_revs q) \<Longrightarrow>
   snd (iter_queued q) = None \<Longrightarrow>
   first_active_task q entry = Some (task_id, active_entry) \<Longrightarrow>
   async_get q task_id timeout = WaitCompleted files \<Longrightarrow>
   files (stash_rev entry) = Some info \<Longrightarrow>
   get_result q entry timeout =
     ([IterQueued, IterProcessed, AsyncGet task_id timeout], Inr (result info))"
  by (simp add: get_result_scan_active wait_active_find first_active_task_def)

theorem get_result_returns_reloaded_result_witness:
  "no_collected_record cq_active entry_a \<and> stash_rev entry_a \<notin> set (queued_revs cq_active) \<and>
   snd (iter_queued cq_active) = None \<and>
   first_active_task cq_active entry_a = Some (''t1'', entry_a) \<and>
   async_get cq_active ''t1'' None =
     WaitCompleted (\<lambda>r. if r = ''aaaa'' then Some uncollected_info else None) \<and>
   \<not> collected uncollected_info \<and>
   get_result cq_active entry_a None =
     ([IterQueued, IterProcessed, AsyncGet ''t1'' None], Inr (result uncollected_info))"
proof -
  have a1: "no_collected_record cq_active entry_a"
    by code_simp
  have a2: "stash_rev entry_a \<notin> set (queued_revs cq_active)"
    by code_simp
  have a3: "snd (iter_queued cq_active) = None"
    by code_simp
  have a4: "first_active_task cq_active entry_a = Some (''t1'', entry_a)"
    by code_simp
  have a5: "async_get cq_active ''t1'' None =
      WaitCompleted (\<lambda>r. if r = ''aaaa'' then Some uncollected_info else None)"
    by (simp add: cq_active_def cq_empty_def)
  have a6: "(\<lambda>r. if r = ''aaaa'' then Some uncollected_info else None) (stash_rev entry_a) =
      Some uncollected_info"
    by (simp add: entry_a_def)
  have a7: "\<not> collected uncollected_info"
    by (simp add: uncollected_info_def)
  from get_result_returns_reloaded_result [OF a1 a2 a3 a4 a5 a6] a1 a2 a3 a4 a5 a7
  show ?thesis by simp
qed

subsection \<open>Auxiliary facts on iter_done\<close>

lemma get_result_collected:
  "\<not> no_collected_record q entry \<Longrightarrow>
     get_result q entry timeout = ([], Inr (record_result q entry))"
  by (auto simp: get_result_def fast_path_def U_load_info_def no_collected_record_def
      record_result_def split: option.splits)

lemma iter_done_loop_collected:
  "list_all (has_collected_record q) pre \<Longrightarrow>
     iter_done_loop q (pre @ rest) err =
       (case iter_done_loop q rest err of
          (items, e) \<Rightarrow> (map (done_pair q) pre @ items, e))"
proof (induction pre)
  case Nil
  then show ?case by simp
next
  case (Cons task pre)
  obtain task_id entry where t: "task = (task_id, entry)" by (cases task)
  from Cons.prems t have c: "\<not> no_collected_record q entry"
    by (simp add: has_collected_record_def)
  from Cons.prems have "list_all (has_collected_record q) pre" by simp
  with Cons.IH show ?case
    by (simp add: t get_result_collected [OF c] done_pair_def split: prod.splits)
qed

lemma iter_done_loop_raises:
  "snd (get_result q entry None) = Inl e \<Longrightarrow>
     iter_done_loop q ((task_id, entry) # tasks) err = ([], Some e)"
  by simp


lemma get_result_invalid:
  "no_collected_record q entry \<Longrightarrow> stash_rev entry \<notin> set (queued_revs q) \<Longrightarrow>
   snd (iter_queued q) = None \<Longrightarrow> first_active_task q entry = None \<Longrightarrow>
   snd (U_iter_active_tasks q) = None \<Longrightarrow>
     get_result q entry timeout =
       ([IterQueued, IterProcessed], Inl (DvcException ''Invalid experiment.''))"
  by (simp add: get_result_scan_active wait_active_find first_active_task_def)

subsection \<open>C6: the result that iter_done pairs with an entry\<close>

text \<open>
  The claim as stated fails: with one delivered, terminal task whose info record is
  missing, and likewise with the record written but not collected, \<^verbatim>\<open>iter_done\<close>
  yields no pair and ends with the exception "Invalid experiment."
\<close>

theorem iter_done_fails_without_collected_record:
  "fst (U_iter_done_tasks cq_done_no_info) = [(''t1'', entry_a)] \<and>
   infofiles cq_done_no_info (stash_rev entry_a) = None \<and>
   iter_done cq_done_no_info = ([], Some (DvcException ''Invalid experiment.'')) \<and>
   fst (U_iter_done_tasks cq_done_uncollected) = [(''t1'', entry_a)] \<and>
   infofiles cq_done_uncollected (stash_rev entry_a) = Some uncollected_info \<and>
   iter_done cq_done_uncollected = ([], Some (DvcException ''Invalid experiment.''))"
  by code_simp

text \<open>
  C6, amended. \<^verbatim>\<open>iter_done\<close> pairs each done entry with what \<^verbatim>\<open>get_result(entry)\<close>
  returns. When every done entry has an info record that reports collected, a pair is
  yielded for each, with the result of the record. There is no default: at the first
  done entry for which \<^verbatim>\<open>get_result\<close> raises, the iteration ends with that exception,
  having yielded the pairs before it; for an entry whose record is missing or not
  collected and which is neither queued nor active, the exception is "Invalid
  experiment."
\<close>

theorem iter_done_pairs_with_get_result:
  "(list_all (has_collected_record q) (fst (U_iter_done_tasks q)) \<longrightarrow>
      iter_done q = (map (done_pair q) (fst (U_iter_done_tasks q)), snd (U_iter_done_tasks q))) \<and>
   (\<forall>pre task_id entry post e.
      fst (U_iter_done_tasks q) = pre @ (task_id, entry) # post \<and>
      list_all (has_collected_record q) pre \<and>
      snd (get_result q entry None) = Inl e \<longrightarrow>
      iter_done q = (map (done_pair q) pre, Some e)) \<and>
   (\<forall>pre task_id entry post.
      fst (U_iter_done_tasks q) = pre @ (task_id, entry) # post \<and>
      list_all (has_collected_record q) pre \<and>
      no_collected_record q entry \<and> stash_rev entry \<notin> set (queued_revs q) \<and>
      snd (iter_queued q) = None \<and> first_active_task q entry = None \<and>
      snd (U_iter_active_tasks q) = None \<longrightarrow>
      iter_done q = (map (done_pair q) pre, Some (DvcException ''Invalid experiment.'')))"
proof (intro conjI allI impI)
  assume a: "list_all (has_collected_record q) (fst (U_iter_done_tasks q))"
  from iter_done_loop_collected [OF a, of "[]" "snd (U_iter_done_tasks q)"]
  show "iter_done q = (map (done_pair q) (fst (U_iter_done_tasks q)), snd (U_iter_done_tasks q))"
    by (cases "U_iter_done_tasks q") (simp add: iter_done_def)
next
  fix pre task_id entry post e
  assume a: "fst (U_iter_done_tasks q) = pre @ (task_id, entry) # post \<and>
      list_all (has_collected_record q) pre \<and> snd (get_result q entry None) = Inl e"
  then have c: "list_all (has_collected_record q) pre" by simp
  from a iter_done_loop_collected [OF c, of "(task_id, entry) # post" "snd (U_iter_done_tasks q)"]
  show "iter_done q = (map (done_pair q) pre, Some e)"
    by (cases "U_iter_done_tasks q") (simp add: iter_done_def)
next
  fix pre task_id entry post
  assume a: "fst (U_iter_done_tasks q) = pre @ (task_id, entry) # post \<and>
      list_all (has_collected_record q) pre \<and>
      no_collected_record q entry \<and> stash_rev entry \<notin> set (queued_revs q) \<and>
      snd (iter_queued q) = None \<and> first_active_task q entry = None \<and>
      snd (U_iter_active_tasks q) = None"
  then have c: "list_all (has_collected_record q) pre" by simp
  from a have g: "snd (get_result q entry None) = Inl (DvcException ''Invalid experiment.'')"
    by (simp add: get_result_invalid)
  from a g iter_done_loop_collected [OF c, of "(task_id, entry) # post" "snd (U_iter_done_tasks q)"]
  show "iter_done q = (map (done_pair q) pre, Some (DvcException ''Invalid experiment.''))"
    by (cases "U_iter_done_tasks q") (simp add: iter_done_def)
qed

theorem iter_done_pairs_with_get_result_witness:
  "list_all (has_collected_record cq_done_collected) (fst (U_iter_done_tasks cq_done_collected)) \<and>
   iter_done cq_done_collected = ([(entry_a, Some good_result)], None) \<and>
   fst (U_iter_done_tasks cq_done_no_info) = [] @ (''t1'', entry_a) # [] \<and>
   no_collected_record cq_done_no_info entry_a \<and>
   first_active_task cq_done_no_info entry_a = None \<and>
   iter_done cq_done_no_info = ([], Some (DvcException ''Invalid experiment.''))"
proof -
  have c: "list_all (has_collected_record cq_done_collected)
      (fst (U_iter_done_tasks cq_done_collected))"
    by code_simp
  have v: "(map (done_pair cq_done_collected) (fst (U_iter_done_tasks cq_done_collected)),
      snd (U_iter_done_tasks cq_done_collected)) = ([(entry_a, Some good_result)], None)"
    by code_simp
  have n1: "fst (U_iter_done_tasks cq_done_no_info) = [] @ (''t1'', entry_a) # []"
    by code_simp
  have n2: "list_all (has_collected_record cq_done_no_info) []"
    by simp
  have n3: "no_collected_record cq_done_no_info entry_a"
    by code_simp
  have n4: "stash_rev entry_a \<notin> set (queued_revs cq_done_no_info)"
    by code_simp
  have n5: "snd (iter_queued cq_done_no_info) = None"
    by code_simp
  have n6: "first_active_task cq_done_no_info entry_a = None"
    by code_simp
  have n7: "snd (U_iter_active_tasks cq_done_no_info) = None"
    by code_simp
  from iter_done_pairs_with_get_result [of cq_done_collected] c v
  have r1: "iter_done cq_done_collected = ([(entry_a, Some good_result)], None)"
    by simp
  from iter_done_pairs_with_get_result [of cq_done_no_info] n1 n2 n3 n4 n5 n6 n7
  have r2: "iter_done cq_done_no_info = (map (done_pair cq_done_no_info) [],
      Some (DvcException ''Invalid experiment.''))"
    by blast
  from c r1 n1 n3 n6 r2 show ?thesis
    by simp
qed

subsection \<open>Auxiliary facts on the delivered view\<close>







subsection \<open>C5: every delivered entry is active or done, never both\<close>




subsection \<open>Auxiliary facts on the rejection loop\<close>

lemma tags_of_Cons:
  "tags_of keys ((msg, entry) # items) =
     (if stash_rev entry \<in> set keys then delivery_tag msg # tags_of keys items
      else tags_of keys items)"
  by (simp add: tags_of_def)

lemma reject_loop_shape:
  "\<exists>tags. fst (reject_loop q keys items err) = map Reject tags \<and> prefix tags (tags_of keys items)"
proof (induction items)
  case Nil
  show ?case by (simp add: tags_of_def)
next
  case (Cons item items)
  obtain msg entry where i: "item = (msg, entry)" by (cases item)
  from Cons.IH obtain tags where
    t: "fst (reject_loop q keys items err) = map Reject tags" "prefix tags (tags_of keys items)"
    by blast
  show ?case
  proof (cases "stash_rev entry \<in> set keys")
    case False
    with t show ?thesis by (auto simp: i tags_of_Cons)
  next
    case True
    show ?thesis
    proof (cases "reject_raises q (delivery_tag msg)")
      case (Some e)
      have "fst (reject_loop q keys (item # items) err) = map Reject [delivery_tag msg]"
        using True Some by (simp add: i)
      moreover have "prefix [delivery_tag msg] (tags_of keys (item # items))"
        using True by (simp add: i tags_of_Cons)
      ultimately show ?thesis by blast
    next
      case None
      have "fst (reject_loop q keys (item # items) err) = map Reject (delivery_tag msg # tags)"
        using True None t(1) by (cases "reject_loop q keys items err") (simp add: i)
      moreover have "prefix (delivery_tag msg # tags) (tags_of keys (item # items))"
        using True t(2) by (simp add: i tags_of_Cons)
      ultimately show ?thesis by blast
    qed
  qed
qed

lemma reject_loop_ok:
  "rejects_ok q (tags_of keys items) \<Longrightarrow>
     reject_loop q keys items err = (map Reject (tags_of keys items), err)"
proof (induction items)
  case Nil
  show ?case by (simp add: tags_of_def)
next
  case (Cons item items)
  obtain msg entry where i: "item = (msg, entry)" by (cases item)
  from Cons.prems have "rejects_ok q (tags_of keys items)"
    by (simp add: i tags_of_Cons rejects_ok_def split: if_splits)
  with Cons.IH have ih: "reject_loop q keys items err = (map Reject (tags_of keys items), err)"
    by simp
  from Cons.prems ih show ?case
    by (auto simp: i tags_of_Cons rejects_ok_def split: if_splits)
qed

lemma reject_loop_fail:
  "tags_of keys items = pre @ tag # post \<Longrightarrow> rejects_ok q pre \<Longrightarrow>
   reject_raises q tag = Some e \<Longrightarrow>
     reject_loop q keys items err = (map Reject (pre @ [tag]), Some e)"
proof (induction items arbitrary: pre)
  case Nil
  then show ?case by (simp add: tags_of_def)
next
  case (Cons item items)
  obtain msg entry where i: "item = (msg, entry)" by (cases item)
  show ?case
  proof (cases "stash_rev entry \<in> set keys")
    case False
    with Cons.prems have "tags_of keys items = pre @ tag # post"
      by (simp add: i tags_of_Cons)
    from Cons.IH [OF this Cons.prems(2) Cons.prems(3)] False show ?thesis
      by (simp add: i)
  next
    case True
    with Cons.prems have c: "delivery_tag msg # tags_of keys items = pre @ tag # post"
      by (simp add: i tags_of_Cons)
    show ?thesis
    proof (cases pre)
      case Nil
      with c have "delivery_tag msg = tag" by simp
      with True Cons.prems(3) Nil show ?thesis by (simp add: i)
    next
      case (Cons p pre')
      with c have p: "p = delivery_tag msg" and r: "tags_of keys items = pre' @ tag # post"
        by simp_all
      from Cons.prems(2) Cons have ok: "reject_raises q (delivery_tag msg) = None"
        and ok': "rejects_ok q pre'"
        by (simp_all add: rejects_ok_def p)
      from Cons.IH [OF r ok' Cons.prems(3)] True ok Cons p show ?thesis
        by (simp add: i)
    qed
  qed
qed

subsection \<open>C8: rejections come before the stash removal, which always happens\<close>

text \<open>
  C8. The steps of \<^verbatim>\<open>LocalCeleryQueue._remove_revs\<close> are rejections of queued messages
  whose entry has one of the given stash revisions, in the order of the queued view,
  followed by the removal of the stash records as the last step: every rejection comes
  before it, and it is made on every path. When neither the iteration nor a rejection
  fails, every such message is rejected and the call returns. When the queued view ends
  with an exception, or the broker raises on a rejection, the rejections made up to
  then are still followed by the stash removal, and the exception is raised after it.
\<close>

theorem remove_revs_rejects_then_removes:
  "(\<exists>tags. fst (U_remove_revs q revs_arg) = map Reject tags @ [StashRemove (map fst revs_arg)] \<and>
      prefix tags (matching_tags q (map fst revs_arg))) \<and>
   (snd (U_iter_queued q) = None \<and> rejects_ok q (matching_tags q (map fst revs_arg)) \<longrightarrow>
      U_remove_revs q revs_arg =
        (map Reject (matching_tags q (map fst revs_arg)) @ [StashRemove (map fst revs_arg)],
         Inr ())) \<and>
   (\<forall>e. snd (U_iter_queued q) = Some e \<and> rejects_ok q (matching_tags q (map fst revs_arg)) \<longrightarrow>
      U_remove_revs q revs_arg =
        (map Reject (matching_tags q (map fst revs_arg)) @ [StashRemove (map fst revs_arg)],
         Inl e)) \<and>
   (\<forall>pre tag post e.
      matching_tags q (map fst revs_arg) = pre @ tag # post \<and> rejects_ok q pre \<and>
      reject_raises q tag = Some e \<longrightarrow>
      U_remove_revs q revs_arg =
        (map Reject (pre @ [tag]) @ [StashRemove (map fst revs_arg)], Inl e))"
proof (intro conjI allI impI)
  obtain items err where u: "U_iter_queued q = (items, err)"
    by (cases "U_iter_queued q")
  from reject_loop_shape [of q "map fst revs_arg" items err] obtain tags where
    t: "fst (reject_loop q (map fst revs_arg) items err) = map Reject tags"
      "prefix tags (tags_of (map fst revs_arg) items)"
    by blast
  have "fst (U_remove_revs q revs_arg) = map Reject tags @ [StashRemove (map fst revs_arg)]"
    using t(1) by (cases "reject_loop q (map fst revs_arg) items err") (simp add: U_remove_revs_def u)
  moreover have "prefix tags (matching_tags q (map fst revs_arg))"
    using t(2) by (simp add: matching_tags_def u)
  ultimately show "\<exists>tags. fst (U_remove_revs q revs_arg) =
        map Reject tags @ [StashRemove (map fst revs_arg)] \<and>
      prefix tags (matching_tags q (map fst revs_arg))"
    by blast
next
  assume a: "snd (U_iter_queued q) = None \<and> rejects_ok q (matching_tags q (map fst revs_arg))"
  obtain items err where u: "U_iter_queued q = (items, err)"
    by (cases "U_iter_queued q")
  from a u have "reject_loop q (map fst revs_arg) items err =
      (map Reject (tags_of (map fst revs_arg) items), None)"
    by (simp add: reject_loop_ok matching_tags_def)
  then show "U_remove_revs q revs_arg =
      (map Reject (matching_tags q (map fst revs_arg)) @ [StashRemove (map fst revs_arg)], Inr ())"
    by (simp add: U_remove_revs_def u matching_tags_def)
next
  fix e
  assume a: "snd (U_iter_queued q) = Some e \<and> rejects_ok q (matching_tags q (map fst revs_arg))"
  obtain items err where u: "U_iter_queued q = (items, err)"
    by (cases "U_iter_queued q")
  from a u have "reject_loop q (map fst revs_arg) items err =
      (map Reject (tags_of (map fst revs_arg) items), Some e)"
    by (simp add: reject_loop_ok matching_tags_def)
  then show "U_remove_revs q revs_arg =
      (map Reject (matching_tags q (map fst revs_arg)) @ [StashRemove (map fst revs_arg)], Inl e)"
    by (simp add: U_remove_revs_def u matching_tags_def)
next
  fix pre tag post e
  assume a: "matching_tags q (map fst revs_arg) = pre @ tag # post \<and> rejects_ok q pre \<and>
      reject_raises q tag = Some e"
  obtain items err where u: "U_iter_queued q = (items, err)"
    by (cases "U_iter_queued q")
  from a u have "reject_loop q (map fst revs_arg) items err = (map Reject (pre @ [tag]), Some e)"
    by (intro reject_loop_fail) (simp_all add: matching_tags_def)
  then show "U_remove_revs q revs_arg =
      (map Reject (pre @ [tag]) @ [StashRemove (map fst revs_arg)], Inl e)"
    by (simp add: U_remove_revs_def u)
qed

theorem remove_revs_rejects_then_removes_witness:
  "snd (U_iter_queued cq_two_queued) = None \<and>
   rejects_ok cq_two_queued (matching_tags cq_two_queued (map fst both_revs)) \<and>
   U_remove_revs cq_two_queued both_revs =
     ([Reject 1, Reject 2, StashRemove [''aaaa'', ''bbbb'']], Inr ()) \<and>
   snd (U_iter_queued cq_view_fails) = Some (OtherException ''broker failed'') \<and>
   U_remove_revs cq_view_fails both_revs =
     ([Reject 1, Reject 2, StashRemove [''aaaa'', ''bbbb'']],
      Inl (OtherException ''broker failed'')) \<and>
   matching_tags cq_reject_fails (map fst both_revs) = [] @ 1 # [2] \<and>
   reject_raises cq_reject_fails 1 = Some (OtherException ''reject failed'') \<and>
   U_remove_revs cq_reject_fails both_revs =
     ([Reject 1, StashRemove [''aaaa'', ''bbbb'']], Inl (OtherException ''reject failed''))"
proof -
  have k: "map fst both_revs = [''aaaa'', ''bbbb'']"
    by (simp add: both_revs_def)
  have a1: "snd (U_iter_queued cq_two_queued) = None"
    by code_simp
  have a2: "rejects_ok cq_two_queued (matching_tags cq_two_queued (map fst both_revs))"
    by code_simp
  have a3: "matching_tags cq_two_queued (map fst both_revs) = [1, 2]"
    by code_simp
  have b1: "snd (U_iter_queued cq_view_fails) = Some (OtherException ''broker failed'')"
    by code_simp
  have b2: "rejects_ok cq_view_fails (matching_tags cq_view_fails (map fst both_revs))"
    by code_simp
  have b3: "matching_tags cq_view_fails (map fst both_revs) = [1, 2]"
    by code_simp
  have c1: "matching_tags cq_reject_fails (map fst both_revs) = [] @ 1 # [2]"
    by code_simp
  have c2: "rejects_ok cq_reject_fails []"
    by (simp add: rejects_ok_def)
  have c3: "reject_raises cq_reject_fails 1 = Some (OtherException ''reject failed'')"
    by (simp add: cq_reject_fails_def)
  from remove_revs_rejects_then_removes [of cq_two_queued both_revs] a1 a2
  have r1: "U_remove_revs cq_two_queued both_revs =
      (map Reject (matching_tags cq_two_queued (map fst both_revs)) @
         [StashRemove (map fst both_revs)], Inr ())"
    by blast
  from remove_revs_rejects_then_removes [of cq_view_fails both_revs] b1 b2
  have r2: "U_remove_revs cq_view_fails both_revs =
      (map Reject (matching_tags cq_view_fails (map fst both_revs)) @
         [StashRemove (map fst both_revs)], Inl (OtherException ''broker failed''))"
    by blast
  from remove_revs_rejects_then_removes [of cq_reject_fails both_revs] c1 c2 c3
  have r3: "U_remove_revs cq_reject_fails both_revs =
      (map Reject ([] @ [1]) @ [StashRemove (map fst both_revs)],
       Inl (OtherException ''reject failed''))"
    by blast
  from a1 a2 b1 c1 c3 r1 r2 r3 a3 b3 k show ?thesis
    by simp
qed

subsection \<open>Auxiliary facts on name resolution\<close>

lemma fill_Nil: "fill [] res = res"
  by (induction res) (auto simp: fill_def first_match_def split: option.splits)

lemma fill_all_resolved: "all_resolved res \<Longrightarrow> fill entries res = res"
  by (induction res) (auto simp: fill_def all_resolved_def)

lemma fill_resolve_step: "fill entries (resolve_step entry res) = fill (entry # entries) res"
  by (induction res) (auto simp: fill_def resolve_step_def first_match_def split: option.splits)

lemma match_scan_fill:
  "match_scan res entries err =
     (if all_resolved (fill entries res) then Inr (fill entries res)
      else (case err of None \<Rightarrow> Inr (fill entries res) | Some e \<Rightarrow> Inl e))"
proof (induction entries arbitrary: res)
  case Nil
  show ?case unfolding fill_Nil by simp
next
  case (Cons entry entries)
  show ?case
  proof (cases "all_resolved res")
    case True
    then show ?thesis by (simp add: fill_all_resolved)
  next
    case False
    then show ?thesis by (simp add: Cons.IH fill_resolve_step cong: option.case_cong)
  qed
qed

lemma fill_initial:
  "fill entries (map (\<lambda>ident. (ident, None)) idents) =
     map (\<lambda>ident. (ident, first_match entries ident)) idents"
  by (simp add: fill_def comp_def)

lemma all_resolved_map:
  "all_resolved (map (\<lambda>ident. (ident, f ident)) idents) \<longleftrightarrow> filter (\<lambda>r. f r = None) idents = []"
  by (induction idents) (auto simp: all_resolved_def)

lemma gen_chain_single: "gen_chain [g] = g"
  by (cases g; cases "snd g") auto

lemma match_single:
  "match_queue_entry_by_name idents [g] =
     (if filter (\<lambda>r. first_match (fst g) r = None) idents = [] \<or> snd g = None
      then Inr (map (\<lambda>ident. (ident, first_match (fst g) ident)) idents)
      else Inl (the (snd g)))"
  by (cases g)
    (auto simp: match_queue_entry_by_name_def gen_chain_single match_scan_fill fill_initial
      all_resolved_map split: option.splits)








subsection \<open>C4: kill reports every unresolved identifier at once and then kills nothing\<close>



subsection \<open>C3: what logs raises for an identifier that resolves nowhere\<close>

text \<open>
  C3. The claim has \<^verbatim>\<open>logs\<close> raise UnresolvedQueueExpNamesError for an identifier that
  resolves against none of the active, done and queued entries. The code does not:
  the second resolution returns a mapping that holds the identifier as a key whether it
  resolved or not, and \<^verbatim>\<open>rev in mapping\<close> asks for the key only. With all three views
  read to their end, an identifier that resolves against no active and no done entry
  always gets the DvcException "is in queue but has not been started", queued or not.
\<close>

theorem logs_unresolved_says_queued:
  "snd (iter_active q) = None \<Longrightarrow> snd (iter_done q) = None \<Longrightarrow> snd (iter_queued q) = None \<Longrightarrow>
   \<not> list_ex (entry_matches r) (fst (iter_active q) @ map fst (fst (iter_done q))) \<Longrightarrow>
   logs q r encoding follow = Inl (DvcException (in_queue_msg r))"
proof -
  assume a: "snd (iter_active q) = None" and d: "snd (iter_done q) = None"
    and u: "snd (iter_queued q) = None"
    and n: "\<not> list_ex (entry_matches r) (fst (iter_active q) @ map fst (fst (iter_done q)))"
  obtain act where ia: "iter_active q = (act, None)"
    using a by (cases "iter_active q") simp
  obtain don where idn: "iter_done q = (don, None)"
    using d by (cases "iter_done q") simp
  obtain qd where iq: "iter_queued q = (qd, None)"
    using u by (cases "iter_queued q") simp
  from n ia idn have f: "first_match (act @ map fst don) r = None"
    by (auto simp: first_match_def find_None_iff list_ex_iff)
  have m1: "match_queue_entry_by_name [r] [(act, None), (map fst don, None)] = Inr [(r, None)]"
    using f
    by (simp add: match_queue_entry_by_name_def match_scan_fill fill_def all_resolved_def)
  have m2: "match_queue_entry_by_name [r] [(qd, None)] = Inr [(r, first_match qd r)]"
    by (simp add: match_single)
  show ?thesis
    by (simp add: logs_def ia idn iq m1 m2 dict_get_def dict_contains_def)
qed

theorem logs_unresolved_says_queued_witness:
  "snd (iter_active cq_empty) = None \<and> snd (iter_done cq_empty) = None \<and>
   snd (iter_queued cq_empty) = None \<and>
   \<not> list_ex (entry_matches ''deadbeef'')
       (fst (iter_active cq_empty) @ map fst (fst (iter_done cq_empty)) @ fst (iter_queued cq_empty)) \<and>
   logs cq_empty ''deadbeef'' None False = Inl (DvcException (in_queue_msg ''deadbeef''))"
proof -
  have a: "snd (iter_active cq_empty) = None"
    by code_simp
  have d: "snd (iter_done cq_empty) = None"
    by code_simp
  have u: "snd (iter_queued cq_empty) = None"
    by code_simp
  have n: "\<not> list_ex (entry_matches ''deadbeef'')
      (fst (iter_active cq_empty) @ map fst (fst (iter_done cq_empty)))"
    by code_simp
  have n': "\<not> list_ex (entry_matches ''deadbeef'')
      (fst (iter_active cq_empty) @ map fst (fst (iter_done cq_empty)) @ fst (iter_queued cq_empty))"
    by code_simp
  from logs_unresolved_says_queued [OF a d u n, of None False] a d u n' show ?thesis
    by simp
qed

end
